theory Spec2Isabelle
  imports Complex_Main
begin

section \<open>createSelectiveContext: the store behind the selective context\<close>

text \<open>
  The source is one TypeScript function, \<^verbatim>\<open>createSelectiveContext(initialState,
  updateContextCallback?)\<close>. Inside it, \<^verbatim>\<open>useContextStore\<close> keeps two mutable cells
  (\<^verbatim>\<open>data\<close> and \<^verbatim>\<open>subscribers\<close>) and returns the closures \<^verbatim>\<open>get\<close>, \<^verbatim>\<open>set\<close> and
  \<^verbatim>\<open>subscribe\<close>; \<^verbatim>\<open>useContext\<close> reads the store from the React context and hands a
  selector to \<^verbatim>\<open>useSyncExternalStore\<close>.

  The embedding passes the mutable cells explicitly (record \<open>world\<close>), returns every
  exception as a value (\<open>error + 'a\<close>, \<open>Inl\<close> the exception), and records every call of
  a foreign callback in a trace, so that what was called, in which order and with which
  argument can be stated.
\<close>

subsection \<open>JavaScript values\<close>

text \<open>
  Objects, arrays, dates and functions have an identity: the \<open>ref\<close> they carry. Two
  values with the same \<open>ref\<close> are the same JavaScript reference (\<^verbatim>\<open>===\<close>); structural
  equality ignores it (\<open>erase\<close> below). A finite number is \<open>JNum\<close> of a rational (every
  finite double is one; \<open>JNum 0\<close> is \<^verbatim>\<open>+0\<close>), and \<^verbatim>\<open>-0\<close>, \<^verbatim>\<open>NaN\<close> and the two infinities
  are values of their own. A date holds its ISO string, or nothing when it is invalid.
  The properties of an object are listed in enumeration order; a JavaScript object has
  no two properties of one name (\<open>wf_props\<close>).
\<close>

type_synonym ref = nat

datatype error = Error string | TypeError string | SyntaxError string | RangeError string

datatype jsval =
    JUndefined
  | JNull
  | JBool bool
  | JNum rat
  | JNegZero
  | JNaN
  | JInfinity bool
  | JBigInt int
  | JStr string
  | JFun ref
  | JDate ref "string option"
  | JArr ref "jsval list"
  | JObj ref "(string \<times> jsval) list"

type_synonym props = "(string \<times> jsval) list"

text \<open>The state of the store is a plain object: its reference and its properties.\<close>

type_synonym object = "ref \<times> props"

definition wf_props :: "props \<Rightarrow> bool" where
  "wf_props ps = distinct (map fst ps)"

text \<open>Property assignment \<^verbatim>\<open>o[k] = v\<close>: an existing property keeps its place.\<close>

fun assign :: "string \<Rightarrow> jsval \<Rightarrow> props \<Rightarrow> props" where
  "assign k v [] = [(k, v)]"
| "assign k v ((k', v') # ps) = (if k = k' then (k, v) # ps else (k', v') # assign k v ps)"

text \<open>
  The object literal \<^verbatim>\<open>{ ...a, ...b }\<close>: a new object, into which the properties of
  \<open>a\<close> and then those of \<open>b\<close> are assigned, one by one.
\<close>

definition copy_props :: "props \<Rightarrow> props \<Rightarrow> props" where
  "copy_props src target = fold (\<lambda>(k, v). assign k v) src target"

definition spread :: "props \<Rightarrow> props \<Rightarrow> props" where
  "spread a b = copy_props b (copy_props a [])"



subsection \<open>JSON.stringify and JSON.parse\<close>

text \<open>
  The source clones the state with \<^verbatim>\<open>JSON.parse(JSON.stringify(data.current))\<close>. The
  text in between is kept as the JSON document it denotes. The serialization follows
  ECMAScript's \<^verbatim>\<open>SerializeJSONProperty\<close>:
  \<^item> a value with a \<^verbatim>\<open>toJSON\<close> method is replaced by what the method returns, called on
    the value with the property key: a date answers its ISO string (\<^verbatim>\<open>null\<close> when invalid);
    for an object whose own property \<^verbatim>\<open>toJSON\<close> is a function, the table \<open>F\<close> of the
    world's functions says what the call returns or throws;
  \<^item> \<^verbatim>\<open>undefined\<close> and functions have no serialization (\<open>None\<close>): an object drops such a
    property and an array writes \<^verbatim>\<open>null\<close> in its place;
  \<^item> \<^verbatim>\<open>NaN\<close> and the infinities are written \<^verbatim>\<open>null\<close>, and \<^verbatim>\<open>-0\<close> is written \<^verbatim>\<open>0\<close>;
  \<^item> a BigInt throws a TypeError.
  The values a \<^verbatim>\<open>toJSON\<close> method returns are serialized in turn, so the recursion is
  bounded by the depth \<open>d\<close> of calls the engine allows: beyond it the engine throws a
  RangeError. Symbols, boxed primitives and cyclic structures are not among the values
  modelled.
\<close>

datatype json =
    JsonNull
  | JsonBool bool
  | JsonNumber rat
  | JsonString string
  | JsonArray "json list"
  | JsonObject "(string \<times> json) list"

type_synonym funs = "ref \<Rightarrow> jsval \<Rightarrow> string \<Rightarrow> error + jsval"

text \<open>The decimal digits of an array index, the key under which an element is serialized.\<close>

definition digit :: "nat \<Rightarrow> char" where
  "digit n = char_of (48 + n)"

function ToString :: "nat \<Rightarrow> string" where
  "ToString n = (if n < 10 then [digit n] else ToString (n div 10) @ [digit (n mod 10)])"
  by pat_completeness auto
termination
  by (relation "measure id") auto

declare ToString.simps [simp del]

text \<open>The function that is the own property \<^verbatim>\<open>toJSON\<close> of an object, when there is one.\<close>

definition toJSON_method :: "jsval \<Rightarrow> ref option" where
  "toJSON_method v =
     (case v of
        JObj r ps \<Rightarrow> (case map_of ps ''toJSON'' of Some (JFun f) \<Rightarrow> Some f | _ \<Rightarrow> None)
      | _ \<Rightarrow> None)"

text \<open>What \<^verbatim>\<open>Date.prototype.toJSON\<close> answers, as the document it is written as.\<close>

definition Date_toJSON :: "jsval \<Rightarrow> json option" where
  "Date_toJSON v =
     (case v of
        JDate r t \<Rightarrow> Some (case t of None \<Rightarrow> JsonNull | Some stamp \<Rightarrow> JsonString stamp)
      | _ \<Rightarrow> None)"

fun SerializeJSONProperty :: "funs \<Rightarrow> nat \<Rightarrow> string \<Rightarrow> jsval \<Rightarrow> error + json option"
  and SerializeJSONValue :: "funs \<Rightarrow> nat \<Rightarrow> jsval \<Rightarrow> error + json option"
  and SerializeJSONArray :: "funs \<Rightarrow> nat \<Rightarrow> nat \<Rightarrow> jsval list \<Rightarrow> error + json list"
  and SerializeJSONObject :: "funs \<Rightarrow> nat \<Rightarrow> props \<Rightarrow> error + (string \<times> json) list" where
  "SerializeJSONProperty F d key v =
     (case Date_toJSON v of
        Some doc \<Rightarrow> Inr (Some doc)
      | None \<Rightarrow>
          (case toJSON_method v of
             None \<Rightarrow> SerializeJSONValue F d v
           | Some f \<Rightarrow>
               (case d of
                  0 \<Rightarrow> Inl (RangeError ''Maximum call stack size exceeded'')
                | Suc d' \<Rightarrow>
                    (case F f v key of
                       Inl e \<Rightarrow> Inl e
                     | Inr v' \<Rightarrow> SerializeJSONValue F d' v'))))"
| "SerializeJSONValue F d JUndefined = Inr None"
| "SerializeJSONValue F d (JFun r) = Inr None"
| "SerializeJSONValue F d JNull = Inr (Some JsonNull)"
| "SerializeJSONValue F d (JBool b) = Inr (Some (JsonBool b))"
| "SerializeJSONValue F d (JNum n) = Inr (Some (JsonNumber n))"
| "SerializeJSONValue F d JNegZero = Inr (Some (JsonNumber 0))"
| "SerializeJSONValue F d JNaN = Inr (Some JsonNull)"
| "SerializeJSONValue F d (JInfinity b) = Inr (Some JsonNull)"
| "SerializeJSONValue F d (JBigInt n) = Inl (TypeError ''Do not know how to serialize a BigInt'')"
| "SerializeJSONValue F d (JStr s) = Inr (Some (JsonString s))"
| "SerializeJSONValue F d (JDate r t) = Inr (Some (JsonObject []))"
| "SerializeJSONValue F d (JArr r xs) =
     (case SerializeJSONArray F d 0 xs of
        Inl e \<Rightarrow> Inl e
      | Inr js \<Rightarrow> Inr (Some (JsonArray js)))"
| "SerializeJSONValue F d (JObj r ps) =
     (case SerializeJSONObject F d ps of
        Inl e \<Rightarrow> Inl e
      | Inr ms \<Rightarrow> Inr (Some (JsonObject ms)))"
| "SerializeJSONArray F d i [] = Inr []"
| "SerializeJSONArray F d i (x # xs) =
     (case SerializeJSONProperty F d (ToString i) x of
        Inl e \<Rightarrow> Inl e
      | Inr j \<Rightarrow>
          (case SerializeJSONArray F d (Suc i) xs of
             Inl e \<Rightarrow> Inl e
           | Inr js \<Rightarrow> Inr ((case j of None \<Rightarrow> JsonNull | Some doc \<Rightarrow> doc) # js)))"
| "SerializeJSONObject F d [] = Inr []"
| "SerializeJSONObject F d ((k, v) # ps) =
     (case SerializeJSONProperty F d k v of
        Inl e \<Rightarrow> Inl e
      | Inr j \<Rightarrow>
          (case SerializeJSONObject F d ps of
             Inl e \<Rightarrow> Inl e
           | Inr ms \<Rightarrow> Inr (case j of None \<Rightarrow> ms | Some doc \<Rightarrow> (k, doc) # ms)))"

declare SerializeJSONProperty.simps [simp del]

text \<open>\<^verbatim>\<open>JSON.stringify(v)\<close> serializes \<open>v\<close> as the property \<^verbatim>\<open>""\<close> of a wrapper object.\<close>

definition JSON_stringify :: "funs \<Rightarrow> nat \<Rightarrow> jsval \<Rightarrow> error + json option" where
  "JSON_stringify F d v = SerializeJSONProperty F d [] v"

text \<open>
  Parsing builds new objects and arrays: each takes the next free reference. The second
  component is the allocator after the value is built.
\<close>

fun build :: "json \<Rightarrow> ref \<Rightarrow> jsval \<times> ref"
  and build_list :: "json list \<Rightarrow> ref \<Rightarrow> jsval list \<times> ref"
  and build_members :: "(string \<times> json) list \<Rightarrow> ref \<Rightarrow> props \<times> ref" where
  "build JsonNull n = (JNull, n)"
| "build (JsonBool b) n = (JBool b, n)"
| "build (JsonNumber i) n = (JNum i, n)"
| "build (JsonString s) n = (JStr s, n)"
| "build (JsonArray js) n = (case build_list js (Suc n) of (xs, n') \<Rightarrow> (JArr n xs, n'))"
| "build (JsonObject ms) n = (case build_members ms (Suc n) of (ps, n') \<Rightarrow> (JObj n ps, n'))"
| "build_list [] n = ([], n)"
| "build_list (j # js) n =
     (case build j n of (x, n1) \<Rightarrow>
        (case build_list js n1 of (xs, n2) \<Rightarrow> (x # xs, n2)))"
| "build_members [] n = ([], n)"
| "build_members ((k, j) # ms) n =
     (case build j n of (v, n1) \<Rightarrow>
        (case build_members ms n1 of (ps, n2) \<Rightarrow> ((k, v) # ps, n2)))"

text \<open>
  \<^verbatim>\<open>JSON.parse(undefined)\<close> reads the text \<^verbatim>\<open>undefined\<close>, which is no JSON document.
\<close>

definition JSON_parse :: "json option \<Rightarrow> ref \<Rightarrow> error + jsval \<times> ref" where
  "JSON_parse doc n =
     (case doc of
        None \<Rightarrow> Inl (SyntaxError ''undefined is not valid JSON'')
      | Some j \<Rightarrow> Inr (build j n))"

subsection \<open>The store\<close>

text \<open>
  \<open>data\<close> is \<^verbatim>\<open>data.current\<close>, \<open>subscribers\<close> is \<^verbatim>\<open>subscribers.current\<close>: a JavaScript
  \<^verbatim>\<open>Set\<close> of listeners, each known by its reference, which enumerates in insertion order.
  The other fields are the engine: \<open>next_ref\<close> is the next reference it hands out,
  \<open>methods\<close> says what a function returns or throws when called as a \<^verbatim>\<open>toJSON\<close> method
  (on which value, with which key), \<open>stack_limit\<close> is the depth of calls it allows.
  \<open>events\<close> is the trace: \<open>Called c s\<close> for a call of listener \<open>c\<close> made while the store
  held \<open>s\<close>, \<open>OnUpdate v\<close> for a call of the update callback with \<open>v\<close>, \<open>ConsoleError\<close> for
  a line written by \<^verbatim>\<open>console.error\<close>.
\<close>

datatype event =
    Called ref object
  | OnUpdate jsval
  | ConsoleError string error

record world =
  data :: object
  subscribers :: "ref list"
  next_ref :: ref
  events :: "event list"
  methods :: funs
  stack_limit :: nat

text \<open>
  An update is a partial object or a function of the properties of the current state,
  which may throw. The optional \<^verbatim>\<open>updateContextCallback\<close> returns (\<open>None\<close>) or throws on
  its argument.
\<close>

datatype newData = Partial props | Updater "props \<Rightarrow> error + props"

type_synonym callback = "jsval \<Rightarrow> error option"

text \<open>
  The calls a client of the store can make. A listener is a JavaScript function
  \<^verbatim>\<open>() => void\<close> that closes over the store: called while the store holds \<open>s\<close>, the
  listener \<open>c\<close> makes the store calls \<open>fst (B c s)\<close>, in order, and then returns
  (\<open>snd (B c s) = None\<close>) or throws. It does not catch what a call of \<^verbatim>\<open>set\<close> it makes
  throws.
\<close>

datatype call = Subscribe ref | Unsubscribe ref | SetState newData

type_synonym behaviour = "ref \<Rightarrow> object \<Rightarrow> call list \<times> error option"

definition Set_add :: "ref \<Rightarrow> ref list \<Rightarrow> ref list" where
  "Set_add c cs = (if c \<in> set cs then cs else cs @ [c])"

definition Set_delete :: "ref \<Rightarrow> ref list \<Rightarrow> bool \<times> ref list" where
  "Set_delete c cs = (c \<in> set cs, removeAll c cs)"

definition useContextStore :: "object \<Rightarrow> ref \<Rightarrow> funs \<Rightarrow> nat \<Rightarrow> world" where
  "useContextStore initialData n F d =
     \<lparr>data = initialData, subscribers = [], next_ref = n, events = [],
      methods = F, stack_limit = d\<rparr>"

definition get :: "world \<Rightarrow> object" where
  "get w = data w"

text \<open>The state as a value, as \<^verbatim>\<open>get\<close> hands it out.\<close>

definition value_of :: "object \<Rightarrow> jsval" where
  "value_of s = JObj (fst s) (snd s)"

text \<open>\<^verbatim>\<open>JSON.parse(JSON.stringify(v))\<close>, with the allocator at \<open>n\<close>.\<close>

definition clone :: "world \<Rightarrow> jsval \<Rightarrow> ref \<Rightarrow> error + jsval \<times> ref" where
  "clone w v n =
     (case JSON_stringify (methods w) (stack_limit w) v of
        Inl e \<Rightarrow> Inl e
      | Inr doc \<Rightarrow> JSON_parse doc n)"

text \<open>
  The \<^verbatim>\<open>try\<close> block of \<^verbatim>\<open>set\<close>. With no callback the optional call
  \<^verbatim>\<open>updateContextCallback?.(...)\<close> does not evaluate its argument. Whatever is thrown
  inside, by \<^verbatim>\<open>JSON.stringify\<close>, by \<^verbatim>\<open>JSON.parse\<close> or by the callback, is written to
  the console and not thrown again.
\<close>

definition console_error :: "error \<Rightarrow> world \<Rightarrow> world" where
  "console_error e w = w\<lparr>events := events w @ [ConsoleError ''Update callback error:'' e]\<rparr>"

definition try_updateContextCallback :: "callback option \<Rightarrow> world \<Rightarrow> world" where
  "try_updateContextCallback updateContextCallback w =
     (case updateContextCallback of
        None \<Rightarrow> w
      | Some f \<Rightarrow>
          (case clone w (value_of (data w)) (next_ref w) of
             Inl e \<Rightarrow> console_error e w
           | Inr (snapshot, n) \<Rightarrow>
               (let w' = w\<lparr>next_ref := n, events := events w @ [OnUpdate snapshot]\<rparr>
                in case f snapshot of
                     Some e \<Rightarrow> console_error e w'
                   | None \<Rightarrow> w')))"

definition resolve :: "newData \<Rightarrow> props \<Rightarrow> error + props" where
  "resolve newData current =
     (case newData of
        Updater f \<Rightarrow> f current
      | Partial p \<Rightarrow> Inr p)"






text \<open>
  The calls a client makes from outside any walk. \<^verbatim>\<open>subscribe\<close> adds the callback and
  returns the closure \<^verbatim>\<open>() => subscribers.current.delete(callback)\<close>, here
  \<open>unsubscribe callback\<close>.
\<close>

definition unsubscribe :: "ref \<Rightarrow> world \<Rightarrow> bool \<times> world" where
  "unsubscribe callback w =
     (case Set_delete callback (subscribers w) of
        (found, cs) \<Rightarrow> (found, w\<lparr>subscribers := cs\<rparr>))"

definition subscribe :: "ref \<Rightarrow> world \<Rightarrow> (world \<Rightarrow> bool \<times> world) \<times> world" where
  "subscribe callback w =
     (unsubscribe callback, w\<lparr>subscribers := Set_add callback (subscribers w)\<rparr>)"


subsection \<open>The store when listeners make no store calls\<close>

text \<open>
  A listener that only returns or throws is given by the table of what it does:
  \<open>L c s = None\<close> when it returns, \<open>L c s = Some e\<close> when it throws. With such listeners a
  walk changes neither the set nor the state, so it is a loop over the listeners
  registered when it starts, and \<^verbatim>\<open>set\<close> is \<open>set_state\<close>: \<open>set_live_quiet\<close> below proves that
  \<open>set_live\<close> does exactly this whenever the listeners of the round make no store calls.
\<close>

type_synonym listeners = "ref \<Rightarrow> object \<Rightarrow> error option"

fun forEach_quiet :: "listeners \<Rightarrow> ref list \<Rightarrow> world \<Rightarrow> error option \<times> world" where
  "forEach_quiet L [] w = (None, w)"
| "forEach_quiet L (c # cs) w =
     (let w' = w\<lparr>events := events w @ [Called c (data w)]\<rparr>
      in case L c (data w) of
           Some e \<Rightarrow> (Some e, w')
         | None \<Rightarrow> forEach_quiet L cs w')"

definition set_state ::
  "callback option \<Rightarrow> listeners \<Rightarrow> newData \<Rightarrow> world \<Rightarrow> (error + unit) \<times> world" where
  "set_state updateContextCallback L newData w =
     (case resolve newData (snd (data w)) of
        Inl e \<Rightarrow> (Inl e, w)
      | Inr updatedData \<Rightarrow>
          (let w1 = w\<lparr>data := (next_ref w, spread (snd (data w)) updatedData),
                      next_ref := Suc (next_ref w)\<rparr>
           in case forEach_quiet L (subscribers w1) w1 of
                (Some e, w2) \<Rightarrow> (Inl e, w2)
              | (None, w2) \<Rightarrow> (Inr (), try_updateContextCallback updateContextCallback w2)))"

definition quiet :: "listeners \<Rightarrow> behaviour" where
  "quiet L c s = ([], L c s)"


subsection \<open>The selective accessor\<close>

text \<open>
  \<^verbatim>\<open>useSyncExternalStore\<close> belongs to React, not to this repository: it is a parameter
  \<open>hook\<close>, which receives the three arguments the source passes (\<^verbatim>\<open>subscribe\<close>, the
  snapshot reader and the fallback reader) and returns the projection or the exception of
  the reader it chose. React reads the fallback (its \<^verbatim>\<open>getServerSnapshot\<close>) while it
  renders on the server and while it hydrates, and the snapshot reader otherwise.
  The React context holds the store or \<^verbatim>\<open>null\<close>: \<open>context\<close> is \<open>Some\<close> of the store's
  world or \<open>None\<close>. The setter returned is the store's \<^verbatim>\<open>set\<close>, written \<open>set_state\<close>.
\<close>

type_synonym 'o reader = "unit \<Rightarrow> error + 'o"

type_synonym 'o hook =
  "(ref \<Rightarrow> world \<Rightarrow> (world \<Rightarrow> bool \<times> world) \<times> world) \<Rightarrow> 'o reader \<Rightarrow> 'o reader \<Rightarrow> error + 'o"

definition useSyncExternalStore_client :: "'o hook" where
  "useSyncExternalStore_client sub getSnapshot getServerSnapshot = getSnapshot ()"

definition useSyncExternalStore_server :: "'o hook" where
  "useSyncExternalStore_server sub getSnapshot getServerSnapshot = getServerSnapshot ()"

definition useContext ::
  "object \<Rightarrow> callback option \<Rightarrow> listeners \<Rightarrow> 'o hook \<Rightarrow> (object \<Rightarrow> error + 'o) \<Rightarrow>
   world option \<Rightarrow>
   error + 'o \<times> (newData \<Rightarrow> world \<Rightarrow> (error + unit) \<times> world)" where
  "useContext initialState updateContextCallback L useSyncExternalStore selector context =
     (case context of
        None \<Rightarrow> Inl (Error ''Context creation error'')
      | Some w \<Rightarrow>
          (case useSyncExternalStore subscribe
                  (\<lambda>_. selector (get w))
                  (\<lambda>_. selector initialState) of
             Inl e \<Rightarrow> Inl e
           | Inr state \<Rightarrow> Inr (state, set_state updateContextCallback L)))"

subsection \<open>Reading the trace, and a client of the store\<close>

text \<open>The listeners called, the arguments of the update callback and the console lines.\<close>

fun called :: "event list \<Rightarrow> ref list" where
  "called [] = []"
| "called (Called c s # es) = c # called es"
| "called (OnUpdate v # es) = called es"
| "called (ConsoleError m e # es) = called es"

fun on_update_args :: "event list \<Rightarrow> jsval list" where
  "on_update_args [] = []"
| "on_update_args (Called c s # es) = on_update_args es"
| "on_update_args (OnUpdate v # es) = v # on_update_args es"
| "on_update_args (ConsoleError m e # es) = on_update_args es"

fun console_errors :: "event list \<Rightarrow> error list" where
  "console_errors [] = []"
| "console_errors (Called c s # es) = console_errors es"
| "console_errors (OnUpdate v # es) = console_errors es"
| "console_errors (ConsoleError m e # es) = e # console_errors es"

text \<open>What a call added to the trace.\<close>

definition new_events :: "world \<Rightarrow> world \<Rightarrow> event list" where
  "new_events w w' = drop (length (events w)) (events w')"

text \<open>
  The listeners a notification round reaches: those of the registry, in its order, up to
  and including the first one that throws.
\<close>

fun reached :: "listeners \<Rightarrow> ref list \<Rightarrow> object \<Rightarrow> ref list" where
  "reached L [] s = []"
| "reached L (c # cs) s = c # (case L c s of Some e \<Rightarrow> [] | None \<Rightarrow> reached L cs s)"

text \<open>
  A client that calls the store any number of times, with listeners that make no store
  calls; it catches what \<^verbatim>\<open>set\<close> throws and goes on.
\<close>

fun step :: "callback option \<Rightarrow> listeners \<Rightarrow> call \<Rightarrow> world \<Rightarrow> world" where
  "step cb L (Subscribe c) w = snd (subscribe c w)"
| "step cb L (Unsubscribe c) w = snd (unsubscribe c w)"
| "step cb L (SetState u) w = snd (set_state cb L u w)"

definition run :: "callback option \<Rightarrow> listeners \<Rightarrow> call list \<Rightarrow> world \<Rightarrow> world" where
  "run cb L calls w = fold (step cb L) calls w"

subsection \<open>Notions used to state the properties\<close>

text \<open>The state that \<^verbatim>\<open>set\<close> installs when the update resolves to \<open>u\<close>.\<close>

definition merged :: "world \<Rightarrow> props \<Rightarrow> object" where
  "merged w u = (next_ref w, spread (snd (data w)) u)"

text \<open>
  The shallow merge in the words of the specification: a field of the state that the
  update does not name survives unchanged, a field that it names is replaced by the
  update's value as a whole (nothing is merged below the top level), and the fields that
  only the update has are added. \<open>merge_all\<close> merges the updates in order, a function-form
  update being resolved on the state current at its turn; an update whose function throws
  merges nothing.
\<close>

definition shallow_merge :: "props \<Rightarrow> props \<Rightarrow> props" where
  "shallow_merge s u =
     map (\<lambda>(k, old). (k, case map_of u k of Some v \<Rightarrow> v | None \<Rightarrow> old)) s
     @ filter (\<lambda>(k, v). k \<notin> set (map fst s)) u"

fun merge_all :: "props \<Rightarrow> newData list \<Rightarrow> props" where
  "merge_all s [] = s"
| "merge_all s (u # us) =
     (case resolve u s of
        Inl e \<Rightarrow> merge_all s us
      | Inr p \<Rightarrow> merge_all (shallow_merge s p) us)"

text \<open>An update is well formed when the object it is, or returns, is one.\<close>

definition wf_update :: "newData \<Rightarrow> bool" where
  "wf_update u =
     (case u of
        Partial p \<Rightarrow> wf_props p
      | Updater f \<Rightarrow> (\<forall>s p. f s = Inr p \<longrightarrow> wf_props p))"






section \<open>Properties\<close>

subsection \<open>The notification loop and the callback block\<close>

lemma forEach_quiet_fields:
  "data (snd (forEach_quiet L cs w)) = data w"
  "subscribers (snd (forEach_quiet L cs w)) = subscribers w"
  "next_ref (snd (forEach_quiet L cs w)) = next_ref w"
  by (induction cs arbitrary: w; simp add: Let_def split: option.split)+

lemma forEach_quiet_events:
  "events (snd (forEach_quiet L cs w)) = events w @ map (\<lambda>c. Called c (data w)) (reached L cs (data w))"
  by (induction cs arbitrary: w) (simp_all add: Let_def split: option.split)

lemma forEach_quiet_result:
  "fst (forEach_quiet L cs w) = None \<longleftrightarrow> (\<forall>c \<in> set cs. L c (data w) = None)"
  by (induction cs arbitrary: w) (auto simp: Let_def split: option.split)

lemma reached_all:
  "(\<forall>c \<in> set cs. L c s = None) \<Longrightarrow> reached L cs s = cs"
  by (induction cs) simp_all



lemma called_append: "called (xs @ ys) = called xs @ called ys"
  by (induction xs rule: called.induct) simp_all

lemma called_Called: "called (map (\<lambda>c. Called c s) cs) = cs"
  by (induction cs) simp_all

lemma on_update_args_append: "on_update_args (xs @ ys) = on_update_args xs @ on_update_args ys"
  by (induction xs rule: on_update_args.induct) simp_all

lemma on_update_args_Called: "on_update_args (map (\<lambda>c. Called c s) cs) = []"
  by (induction cs) simp_all

lemma console_errors_append: "console_errors (xs @ ys) = console_errors xs @ console_errors ys"
  by (induction xs rule: console_errors.induct) simp_all

lemma console_errors_Called: "console_errors (map (\<lambda>c. Called c s) cs) = []"
  by (induction cs) simp_all

text \<open>The callback block changes neither the state nor the registry, and calls no listener.\<close>

lemma try_updateContextCallback_fields:
  "data (try_updateContextCallback cb w) = data w"
  "subscribers (try_updateContextCallback cb w) = subscribers w"
  by (simp_all add: try_updateContextCallback_def console_error_def Let_def
      split: option.split sum.split prod.split)

lemma try_updateContextCallback_events:
  "\<exists>es. events (try_updateContextCallback cb w) = events w @ es \<and> called es = []"
  by (simp add: try_updateContextCallback_def console_error_def Let_def
      split: option.split sum.split prod.split)

subsection \<open>What one call of set does\<close>

lemma set_state_throws:
  "resolve nd (snd (data w)) = Inl e \<Longrightarrow> set_state cb L nd w = (Inl e, w)"
  by (simp add: set_state_def)

lemma set_state_data:
  "resolve nd (snd (data w)) = Inr u \<Longrightarrow> data (snd (set_state cb L nd w)) = merged w u"
  by (cases "forEach_quiet L (subscribers w) (w\<lparr>data := merged w u, next_ref := Suc (next_ref w)\<rparr>)")
    (use forEach_quiet_fields(1) [of L "subscribers w" "w\<lparr>data := merged w u, next_ref := Suc (next_ref w)\<rparr>"]
      in \<open>auto simp: set_state_def merged_def Let_def try_updateContextCallback_fields
        split: option.split\<close>)

lemma set_state_subscribers:
  "subscribers (snd (set_state cb L nd w)) = subscribers w"
proof (cases "resolve nd (snd (data w))")
  case (Inl e)
  then show ?thesis by (simp add: set_state_def)
next
  case (Inr u)
  let ?w1 = "w\<lparr>data := merged w u, next_ref := Suc (next_ref w)\<rparr>"
  show ?thesis
    using Inr forEach_quiet_fields(2) [of L "subscribers w" ?w1]
    by (cases "forEach_quiet L (subscribers w) ?w1")
      (auto simp: set_state_def merged_def Let_def try_updateContextCallback_fields
        split: option.split)
qed

lemma set_state_result:
  "resolve nd (snd (data w)) = Inr u \<Longrightarrow>
   fst (set_state cb L nd w) =
     (case fst (forEach_quiet L (subscribers w) (w\<lparr>data := merged w u, next_ref := Suc (next_ref w)\<rparr>)) of
        Some e \<Rightarrow> Inl e
      | None \<Rightarrow> Inr ())"
  by (cases "forEach_quiet L (subscribers w) (w\<lparr>data := merged w u, next_ref := Suc (next_ref w)\<rparr>)")
    (auto simp: set_state_def merged_def Let_def split: option.split)

lemma set_state_returns:
  "resolve nd (snd (data w)) = Inr u \<Longrightarrow>
   fst (set_state cb L nd w) = Inr () \<longleftrightarrow> (\<forall>c \<in> set (subscribers w). L c (merged w u) = None)"
  using forEach_quiet_result [of L "subscribers w" "w\<lparr>data := merged w u, next_ref := Suc (next_ref w)\<rparr>"]
  by (cases "fst (forEach_quiet L (subscribers w) (w\<lparr>data := merged w u, next_ref := Suc (next_ref w)\<rparr>))")
    (auto simp: set_state_result)

lemma set_state_events:
  "resolve nd (snd (data w)) = Inr u \<Longrightarrow>
   \<exists>es. events (snd (set_state cb L nd w)) =
           events w @ map (\<lambda>c. Called c (merged w u)) (reached L (subscribers w) (merged w u)) @ es
       \<and> called es = []"
proof -
  assume r: "resolve nd (snd (data w)) = Inr u"
  let ?w1 = "w\<lparr>data := merged w u, next_ref := Suc (next_ref w)\<rparr>"
  obtain r2 w2 where f: "forEach_quiet L (subscribers w) ?w1 = (r2, w2)"
    by (cases "forEach_quiet L (subscribers w) ?w1")
  have ev: "events w2 =
      events w @ map (\<lambda>c. Called c (merged w u)) (reached L (subscribers w) (merged w u))"
    using forEach_quiet_events [of L "subscribers w" ?w1] f by simp
  show ?thesis
  proof (cases r2)
    case (Some e)
    then show ?thesis using r f ev by (simp add: set_state_def merged_def Let_def)
  next
    case None
    obtain es where "events (try_updateContextCallback cb w2) = events w2 @ es" "called es = []"
      using try_updateContextCallback_events [of cb w2] by blast
    then show ?thesis using None r f ev by (simp add: set_state_def merged_def Let_def)
  qed
qed

lemma set_state_called:
  "resolve nd (snd (data w)) = Inr u \<Longrightarrow>
   called (new_events w (snd (set_state cb L nd w))) = reached L (subscribers w) (merged w u)"
  using set_state_events [of nd w u cb L]
  by (auto simp: new_events_def called_append called_Called)

subsection \<open>Claims on failures\<close>

text \<open>
  C9. If a function-form update throws when applied to the current state, \<^verbatim>\<open>set\<close> throws
  that error to its caller and nothing else happens: the stored state, the registry and
  the allocator are as before (the whole world is), no listener is called and the update
  callback is not invoked. The update is resolved before anything is written.
\<close>

theorem set_state_atomic_on_updater_failure:
  assumes "f (snd (get w)) = Inl e"
  shows "fst (set_state cb L (Updater f) w) = Inl e
       \<and> snd (set_state cb L (Updater f) w) = w
       \<and> get (snd (set_state cb L (Updater f) w)) = get w
       \<and> called (new_events w (snd (set_state cb L (Updater f) w))) = []
       \<and> on_update_args (new_events w (snd (set_state cb L (Updater f) w))) = []"
proof -
  have "set_state cb L (Updater f) w = (Inl e, w)"
    using assms by (simp add: set_state_throws resolve_def get_def)
  then show ?thesis by (simp add: new_events_def)
qed

theorem set_state_atomic_on_updater_failure_witness:
  "(\<lambda>ps. Inl (Error ''boom'') :: error + props)
      (snd (get \<lparr>data = (0, [(''count'', JNum 0)]), subscribers = [7], next_ref = 1, events = [], methods = (\<lambda>f v k. Inr JUndefined), stack_limit = 0\<rparr>))
     = Inl (Error ''boom'')
   \<and> set_state (Some (\<lambda>v. None)) (\<lambda>c s. None) (Updater (\<lambda>ps. Inl (Error ''boom'')))
       \<lparr>data = (0, [(''count'', JNum 0)]), subscribers = [7], next_ref = 1, events = [], methods = (\<lambda>f v k. Inr JUndefined), stack_limit = 0\<rparr>
     = (Inl (Error ''boom''),
        \<lparr>data = (0, [(''count'', JNum 0)]), subscribers = [7], next_ref = 1, events = [], methods = (\<lambda>f v k. Inr JUndefined), stack_limit = 0\<rparr>)"
  using set_state_atomic_on_updater_failure
    [of "\<lambda>ps. Inl (Error ''boom'')"
        "\<lparr>data = (0, [(''count'', JNum 0)]), subscribers = [7], next_ref = 1, events = [], methods = (\<lambda>f v k. Inr JUndefined), stack_limit = 0\<rparr>"
        "Error ''boom''" "Some (\<lambda>v. None)" "\<lambda>c s. None"]
  by (simp add: prod_eq_iff)

text \<open>
  C6. When the React context holds no store, \<^verbatim>\<open>useContext\<close> throws
  \<^verbatim>\<open>Error('Context creation error')\<close> to its caller, whatever the selector and whatever
  \<^verbatim>\<open>useSyncExternalStore\<close> would do: it returns no projection and no setter.
\<close>

theorem useContext_without_provider:
  "useContext initialState cb L hook selector None = Inl (Error ''Context creation error'')
   \<and> (\<forall>r. useContext initialState cb L hook selector None \<noteq> Inr r)"
  by (simp add: useContext_def)

text \<open>
  Where React reads the snapshot, the projection is the selector applied to the state the
  store holds, and an exception of the selector is passed on.
\<close>

lemma useContext_live_projection:
  "useContext initialState cb L useSyncExternalStore_client selector (Some w) =
     (case selector (get w) of
        Inl e \<Rightarrow> Inl e
      | Inr v \<Rightarrow> Inr (v, set_state cb L))"
  by (simp add: useContext_def useSyncExternalStore_client_def)

text \<open>
  C7. The fallback reader that \<^verbatim>\<open>useContext\<close> hands to \<^verbatim>\<open>useSyncExternalStore\<close> is the
  selector applied to the initial state given to the factory: where React reads the
  fallback, the projection returned is \<open>selector initialState\<close>, whatever the store holds
  by then, and it is a value whenever the selector returns one on the initial state.
\<close>

theorem useContext_fallback_projection:
  assumes "selector initialState = Inr v"
  shows "useContext initialState cb L useSyncExternalStore_server selector (Some w)
           = Inr (v, set_state cb L)"
  using assms by (simp add: useContext_def useSyncExternalStore_server_def)

theorem useContext_fallback_projection_witness:
  "(\<lambda>s. Inr (map_of (snd s) ''count'')) (0, [(''count'', JNum 0)]) = Inr (Some (JNum 0))
   \<and> useContext (0, [(''count'', JNum 0)]) None (\<lambda>c s. None) useSyncExternalStore_server
        (\<lambda>s. Inr (map_of (snd s) ''count''))
        (Some \<lparr>data = (3, [(''count'', JNum 5)]), subscribers = [], next_ref = 4, events = [], methods = (\<lambda>f v k. Inr JUndefined), stack_limit = 0\<rparr>)
      = Inr (Some (JNum 0), set_state None (\<lambda>c s. None))"
  using useContext_fallback_projection
    [of "\<lambda>s. Inr (map_of (snd s) ''count'')" "(0, [(''count'', JNum 0)])" "Some (JNum 0)"
        None "\<lambda>c s. None"
        "\<lparr>data = (3, [(''count'', JNum 5)]), subscribers = [], next_ref = 4, events = [], methods = (\<lambda>f v k. Inr JUndefined), stack_limit = 0\<rparr>"]
  by simp

subsection \<open>The object spread is the shallow merge\<close>

lemma key_in: "(k, b) \<in> set s \<Longrightarrow> k \<in> fst ` set s"
  by force

lemma assign_keys:
  "map fst (assign k v s) = (if k \<in> set (map fst s) then map fst s else map fst s @ [k])"
  by (induction s) (auto simp: rev_image_eqI)

lemma assign_new: "k \<notin> set (map fst s) \<Longrightarrow> assign k v s = s @ [(k, v)]"
  by (induction s) auto

lemma replace_absent:
  "k \<notin> set (map fst s) \<Longrightarrow> map (\<lambda>(k', old). (k', if k' = k then v else old)) s = s"
  by (induction s) auto

lemma assign_old:
  "k \<in> set (map fst s) \<Longrightarrow> distinct (map fst s) \<Longrightarrow>
   assign k v s = map (\<lambda>(k', old). (k', if k' = k then v else old)) s"
proof (induction s)
  case Nil
  then show ?case by simp
next
  case (Cons x s)
  obtain k' v' where x: "x = (k', v')" by (cases x)
  show ?case
  proof (cases "k = k'")
    case True
    then have "k \<notin> set (map fst s)" using Cons.prems(2) x by simp
    then show ?thesis using True x by (simp add: replace_absent)
  next
    case False
    then show ?thesis using Cons x by simp
  qed
qed

lemma assign_wf: "distinct (map fst s) \<Longrightarrow> distinct (map fst (assign k v s))"
  by (simp add: assign_keys)

lemma copy_props_shallow_merge:
  "distinct (map fst s) \<Longrightarrow> distinct (map fst u) \<Longrightarrow> copy_props u s = shallow_merge s u"
proof (induction u arbitrary: s)
  case Nil
  then show ?case by (simp add: copy_props_def shallow_merge_def)
next
  case (Cons x u)
  obtain k v where x: "x = (k, v)" by (cases x)
  have ku: "k \<notin> set (map fst u)" and du: "distinct (map fst u)"
    using Cons.prems(2) x by auto
  have nk: "map_of u k = None"
    using ku by (simp add: map_of_eq_None_iff)
  have "copy_props (x # u) s = copy_props u (assign k v s)"
    by (simp add: copy_props_def x)
  also have "\<dots> = shallow_merge (assign k v s) u"
    using Cons.IH [OF assign_wf [OF Cons.prems(1)] du] .
  also have "\<dots> = shallow_merge s (x # u)"
  proof (cases "k \<in> set (map fst s)")
    case True
    have keys: "map fst (assign k v s) = map fst s"
      using True by (simp add: assign_keys)
    have "map (\<lambda>(k', old). (k', case map_of u k' of Some v \<Rightarrow> v | None \<Rightarrow> old)) (assign k v s)
        = map (\<lambda>(k', old). (k', case map_of (x # u) k' of Some v \<Rightarrow> v | None \<Rightarrow> old)) s"
      using nk by (simp add: assign_old [OF True Cons.prems(1)] x case_prod_unfold split: option.split)
    moreover have "filter (\<lambda>(k', v). k' \<notin> set (map fst s)) (x # u)
        = filter (\<lambda>(k', v). k' \<notin> set (map fst s)) u"
      using True x by simp
    ultimately show ?thesis
      unfolding shallow_merge_def keys by simp
  next
    case False
    have keys: "map fst (assign k v s) = map fst s @ [k]"
      using False by (simp add: assign_keys)
    have m: "map (\<lambda>(k', old). (k', case map_of (x # u) k' of Some v \<Rightarrow> v | None \<Rightarrow> old)) s
           = map (\<lambda>(k', old). (k', case map_of u k' of Some v \<Rightarrow> v | None \<Rightarrow> old)) s"
      using False x by (intro map_cong) (auto simp: rev_image_eqI)
    have f: "filter (\<lambda>(k', v). k' \<notin> set (map fst s @ [k])) u
           = filter (\<lambda>(k', v). k' \<notin> set (map fst s)) u"
      using ku by (intro filter_cong) (auto dest: key_in)
    show ?thesis
      unfolding shallow_merge_def keys f m
      using False nk x by (simp add: assign_new)
  qed
  finally show ?case .
qed

lemma spread_shallow_merge:
  "wf_props s \<Longrightarrow> wf_props u \<Longrightarrow> spread s u = shallow_merge s u"
  using copy_props_shallow_merge [of "[]" s] copy_props_shallow_merge [of s u]
  by (simp add: spread_def wf_props_def shallow_merge_def)

lemma copy_props_wf: "distinct (map fst t) \<Longrightarrow> distinct (map fst (copy_props s t))"
  by (induction s arbitrary: t) (auto simp: copy_props_def assign_wf)

lemma spread_wf: "wf_props (spread s u)"
  by (simp add: spread_def wf_props_def copy_props_wf)

lemma step_props:
  "wf_props (snd (data w)) \<Longrightarrow> wf_update u \<Longrightarrow>
   snd (data (snd (set_state cb L u w))) =
     (case resolve u (snd (data w)) of Inl e \<Rightarrow> snd (data w) | Inr p \<Rightarrow> shallow_merge (snd (data w)) p)"
  apply (cases "resolve u (snd (data w))")
   apply (simp add: set_state_throws)
  apply (simp add: set_state_data merged_def)
  apply (rule spread_shallow_merge)
  apply (auto simp: wf_update_def resolve_def split: newData.splits)
  done

subsection \<open>Claims on the state\<close>

text \<open>
  C1. From any state, after any sequence of updates passed to \<^verbatim>\<open>set\<close> (partial
  objects or functions of the current state), \<^verbatim>\<open>get\<close> returns the state whose
  properties are the shallow merge of the initial properties with each resolved update
  in order, whatever the listeners and the update callback do. The objects are well
  formed (no two properties of one name).
\<close>

theorem get_after_updates:
  assumes "wf_props (snd (get w))" and "list_all wf_update us"
  shows "snd (get (run cb L (map SetState us) w)) = merge_all (snd (get w)) us"
  using assms
proof (induction us arbitrary: w)
  case Nil
  then show ?case by (simp add: run_def)
next
  case (Cons u us)
  let ?w = "snd (set_state cb L u w)"
  have p: "snd (get ?w) =
     (case resolve u (snd (get w)) of Inl e \<Rightarrow> snd (get w) | Inr p \<Rightarrow> shallow_merge (snd (get w)) p)"
    using Cons.prems step_props [of w u cb L] by (simp add: get_def split: sum.split)
  have wf: "wf_props (snd (get ?w))"
  proof (cases "resolve u (snd (data w))")
    case (Inl e)
    then show ?thesis using Cons.prems(1) by (simp add: set_state_throws get_def)
  next
    case (Inr q)
    then show ?thesis by (simp add: set_state_data merged_def get_def spread_wf)
  qed
  have "snd (get (run cb L (map SetState (u # us)) w)) = snd (get (run cb L (map SetState us) ?w))"
    by (simp add: run_def)
  also have "\<dots> = merge_all (snd (get ?w)) us"
    using Cons.IH [OF wf] Cons.prems(2) by simp
  also have "\<dots> = merge_all (snd (get w)) (u # us)"
    using p by (auto simp: get_def split: sum.splits)
  finally show ?case .
qed


theorem get_after_updates_witness:
  "wf_props (snd (get \<lparr>data = (0, [(''a'', JNum 1), (''b'', JObj 1 [(''x'', JNum 1), (''y'', JNum 2)])]),
                       subscribers = [7], next_ref = 2, events = [], methods = (\<lambda>f v k. Inr JUndefined), stack_limit = 0\<rparr>))
   \<and> list_all wf_update
       [Partial [(''b'', JObj 9 [(''x'', JNum 5)])],
        Updater (\<lambda>s. Inr [(''a'', case map_of s ''a'' of Some (JNum n) \<Rightarrow> JNum (n + 1) | _ \<Rightarrow> JNaN)])]
   \<and> snd (get (run (Some (\<lambda>v. Some (Error ''boom''))) (\<lambda>c s. Some (Error ''bang''))
        (map SetState
          [Partial [(''b'', JObj 9 [(''x'', JNum 5)])],
           Updater (\<lambda>s. Inr [(''a'', case map_of s ''a'' of Some (JNum n) \<Rightarrow> JNum (n + 1) | _ \<Rightarrow> JNaN)])])
        \<lparr>data = (0, [(''a'', JNum 1), (''b'', JObj 1 [(''x'', JNum 1), (''y'', JNum 2)])]),
         subscribers = [7], next_ref = 2, events = [], methods = (\<lambda>f v k. Inr JUndefined), stack_limit = 0\<rparr>))
     = [(''a'', JNum 2), (''b'', JObj 9 [(''x'', JNum 5)])]"
  using get_after_updates
    [of "\<lparr>data = (0, [(''a'', JNum 1), (''b'', JObj 1 [(''x'', JNum 1), (''y'', JNum 2)])]),
          subscribers = [7], next_ref = 2, events = [], methods = (\<lambda>f v k. Inr JUndefined), stack_limit = 0\<rparr>"
        "[Partial [(''b'', JObj 9 [(''x'', JNum 5)])],
          Updater (\<lambda>s. Inr [(''a'', case map_of s ''a'' of Some (JNum n) \<Rightarrow> JNum (n + 1) | _ \<Rightarrow> JNaN)])]"
        "Some (\<lambda>v. Some (Error ''boom''))" "\<lambda>c s. Some (Error ''bang'')"]
  by (simp add: wf_props_def wf_update_def shallow_merge_def resolve_def get_def)

subsection \<open>Claims on the update callback\<close>

lemma forEach_quiet_world:
  "snd (forEach_quiet L cs w) =
     w\<lparr>events := events w @ map (\<lambda>c. Called c (data w)) (reached L cs (data w))\<rparr>"
  by (induction cs arbitrary: w) (simp_all add: Let_def split: option.split)

lemma set_state_success:
  assumes "resolve nd (snd (data w)) = Inr u" and "fst (set_state cb L nd w) = Inr ()"
  shows "snd (set_state cb L nd w) =
     try_updateContextCallback cb
       (w\<lparr>data := merged w u, next_ref := Suc (next_ref w),
          events := events w @ map (\<lambda>c. Called c (merged w u)) (subscribers w)\<rparr>)"
proof -
  let ?w1 = "w\<lparr>data := merged w u, next_ref := Suc (next_ref w)\<rparr>"
  obtain r2 w2 where f: "forEach_quiet L (subscribers w) ?w1 = (r2, w2)"
    by (cases "forEach_quiet L (subscribers w) ?w1")
  have r2: "r2 = None"
    using assms f by (cases r2) (simp_all add: set_state_def merged_def Let_def)
  have all: "\<forall>c \<in> set (subscribers w). L c (merged w u) = None"
    using forEach_quiet_result [of L "subscribers w" ?w1] f r2 by simp
  have "w2 = ?w1\<lparr>events := events w @ map (\<lambda>c. Called c (merged w u)) (subscribers w)\<rparr>"
    using forEach_quiet_world [of L "subscribers w" ?w1] f all
    by (simp add: reached_all [of "subscribers w" L "merged w u"])
  moreover have "snd (set_state cb L nd w) = try_updateContextCallback cb w2"
    using assms(1) f r2 by (simp add: set_state_def merged_def Let_def)
  ultimately show ?thesis by simp
qed

lemma set_state_without_callback:
  "fst (set_state cb L nd w) = fst (set_state None L nd w)"
  "data (snd (set_state cb L nd w)) = data (snd (set_state None L nd w))"
  "called (new_events w (snd (set_state cb L nd w))) = called (new_events w (snd (set_state None L nd w)))"
  by (cases "resolve nd (snd (data w))";
      simp add: set_state_throws set_state_result set_state_data set_state_called)+


lemma set_state_succeeds:
  assumes "resolve nd (snd (get w)) = Inr u"
    and "\<forall>c \<in> set (subscribers w). L c (merged w u) = None"
  shows "fst (set_state cb L nd w) = Inr ()"
    and "get (snd (set_state cb L nd w)) = merged w u"
    and "called (new_events w (snd (set_state cb L nd w))) = subscribers w"
  using assms
  by (simp_all add: get_def set_state_returns set_state_data set_state_called reached_all)

lemmas store_defs =
  set_state_def resolve_def spread_def copy_props_def try_updateContextCallback_def clone_def
  JSON_stringify_def SerializeJSONProperty.simps JSON_parse_def Date_toJSON_def
  toJSON_method_def value_of_def
  console_error_def get_def merged_def new_events_def
  subscribe_def unsubscribe_def Set_add_def Set_delete_def useContextStore_def run_def

text \<open>
  C2. When the update callback throws on the snapshot it is given, \<^verbatim>\<open>set\<close> behaves
  towards its caller, the store and the listeners as it does with no callback at all: it
  returns or throws the same, stores the same state, keeps the registry and calls the same
  listeners. When \<^verbatim>\<open>set\<close> got as far as the callback, the callback was called once, with
  that snapshot, and the error it threw is the one line written to the console: the trace
  of the call is the listener calls, the callback call and the console line. A following
  \<^verbatim>\<open>set\<close>, whose update resolves and whose listeners return, returns normally, stores the
  merged state and calls every listener of the registry.
\<close>

theorem set_state_isolates_callback_failure:
  assumes "resolve nd (snd (get w)) = Inr u"
    and "clone w (value_of (merged w u)) (Suc (next_ref w)) = Inr (snapshot, k)"
    and "f snapshot = Some e"
  shows "fst (set_state (Some f) L nd w) = fst (set_state None L nd w)
       \<and> get (snd (set_state (Some f) L nd w)) = get (snd (set_state None L nd w))
       \<and> subscribers (snd (set_state (Some f) L nd w)) = subscribers w
       \<and> called (new_events w (snd (set_state (Some f) L nd w)))
           = called (new_events w (snd (set_state None L nd w)))
       \<and> (fst (set_state (Some f) L nd w) = Inr () \<longrightarrow>
            new_events w (snd (set_state (Some f) L nd w))
              = map (\<lambda>c. Called c (merged w u)) (subscribers w)
                @ [OnUpdate snapshot, ConsoleError ''Update callback error:'' e]
          \<and> on_update_args (new_events w (snd (set_state (Some f) L nd w))) = [snapshot]
          \<and> console_errors (new_events w (snd (set_state (Some f) L nd w))) = [e])
       \<and> (let w' = snd (set_state (Some f) L nd w) in
            \<forall>u'. resolve nd' (snd (get w')) = Inr u'
                 \<and> (\<forall>c \<in> set (subscribers w'). L c (merged w' u') = None) \<longrightarrow>
              fst (set_state (Some f) L nd' w') = Inr ()
            \<and> get (snd (set_state (Some f) L nd' w')) = merged w' u'
            \<and> called (new_events w' (snd (set_state (Some f) L nd' w'))) = subscribers w')"
proof -
  have r: "resolve nd (snd (data w)) = Inr u"
    using assms(1) by (simp add: get_def)
  have 1: "fst (set_state (Some f) L nd w) = fst (set_state None L nd w)"
    by (rule set_state_without_callback(1))
  have 2: "get (snd (set_state (Some f) L nd w)) = get (snd (set_state None L nd w))"
    unfolding get_def by (rule set_state_without_callback(2))
  have 3: "subscribers (snd (set_state (Some f) L nd w)) = subscribers w"
    by (rule set_state_subscribers)
  have 4: "called (new_events w (snd (set_state (Some f) L nd w)))
           = called (new_events w (snd (set_state None L nd w)))"
    by (rule set_state_without_callback(3))
  have 5: "new_events w (snd (set_state (Some f) L nd w))
              = map (\<lambda>c. Called c (merged w u)) (subscribers w)
                @ [OnUpdate snapshot, ConsoleError ''Update callback error:'' e]"
    if ok: "fst (set_state (Some f) L nd w) = Inr ()"
  proof -
    have c: "clone (w\<lparr>data := merged w u, next_ref := Suc (next_ref w),
          events := events w @ map (\<lambda>c. Called c (merged w u)) (subscribers w)\<rparr>)
          (value_of (merged w u)) (Suc (next_ref w)) = Inr (snapshot, k)"
      using assms(2) by (simp add: clone_def)
    show ?thesis
      unfolding set_state_success [OF r ok]
      using c assms(3)
      by (simp add: try_updateContextCallback_def console_error_def new_events_def Let_def)
  qed
  have 6: "\<forall>u'. resolve nd' (snd (get w')) = Inr u'
                 \<and> (\<forall>c \<in> set (subscribers w'). L c (merged w' u') = None) \<longrightarrow>
              fst (set_state (Some f) L nd' w') = Inr ()
            \<and> get (snd (set_state (Some f) L nd' w')) = merged w' u'
            \<and> called (new_events w' (snd (set_state (Some f) L nd' w'))) = subscribers w'" for w'
    using set_state_succeeds [of nd' w' _ L "Some f"] by blast
  have 7: "fst (set_state (Some f) L nd w) = Inr () \<longrightarrow>
            new_events w (snd (set_state (Some f) L nd w))
              = map (\<lambda>c. Called c (merged w u)) (subscribers w)
                @ [OnUpdate snapshot, ConsoleError ''Update callback error:'' e]
          \<and> on_update_args (new_events w (snd (set_state (Some f) L nd w))) = [snapshot]
          \<and> console_errors (new_events w (snd (set_state (Some f) L nd w))) = [e]"
    using 5 by (simp add: on_update_args_append on_update_args_Called
        console_errors_append console_errors_Called)
  show ?thesis
    unfolding Let_def using 1 2 3 4 6 7 by blast
qed

theorem set_state_isolates_callback_failure_witness:
  "resolve (Partial [(''count'', JNum 1)]) (snd (get \<lparr>data = (0, [(''count'', JNum 0), (''name'', JStr ''n'')]), subscribers = [7, 8], next_ref = 1, events = [], methods = (\<lambda>f v k. Inr JUndefined), stack_limit = 0\<rparr>)) = Inr [(''count'', JNum 1)]
   \<and> clone \<lparr>data = (0, [(''count'', JNum 0), (''name'', JStr ''n'')]), subscribers = [7, 8], next_ref = 1, events = [], methods = (\<lambda>f v k. Inr JUndefined), stack_limit = 0\<rparr> (value_of (merged \<lparr>data = (0, [(''count'', JNum 0), (''name'', JStr ''n'')]), subscribers = [7, 8], next_ref = 1, events = [], methods = (\<lambda>f v k. Inr JUndefined), stack_limit = 0\<rparr> [(''count'', JNum 1)])) (Suc (next_ref \<lparr>data = (0, [(''count'', JNum 0), (''name'', JStr ''n'')]), subscribers = [7, 8], next_ref = 1, events = [], methods = (\<lambda>f v k. Inr JUndefined), stack_limit = 0\<rparr>))
      = Inr (JObj 2 [(''count'', JNum 1), (''name'', JStr ''n'')], 3)
   \<and> (\<lambda>v. if v = JObj 2 [(''count'', JNum 1), (''name'', JStr ''n'')] then Some (Error ''boom'') else None) (JObj 2 [(''count'', JNum 1), (''name'', JStr ''n'')]) = Some (Error ''boom'')
   \<and> set_state (Some (\<lambda>v. if v = JObj 2 [(''count'', JNum 1), (''name'', JStr ''n'')] then Some (Error ''boom'') else None)) (\<lambda>c s. None) (Partial [(''count'', JNum 1)]) \<lparr>data = (0, [(''count'', JNum 0), (''name'', JStr ''n'')]), subscribers = [7, 8], next_ref = 1, events = [], methods = (\<lambda>f v k. Inr JUndefined), stack_limit = 0\<rparr>
      = (Inr (),
         \<lparr>data = (1, [(''count'', JNum 1), (''name'', JStr ''n'')]),
          subscribers = [7, 8], next_ref = 3,
          events =
            [Called 7 (1, [(''count'', JNum 1), (''name'', JStr ''n'')]),
             Called 8 (1, [(''count'', JNum 1), (''name'', JStr ''n'')]),
             OnUpdate (JObj 2 [(''count'', JNum 1), (''name'', JStr ''n'')]),
             ConsoleError ''Update callback error:'' (Error ''boom'')],
          methods = (\<lambda>f v k. Inr JUndefined), stack_limit = 0\<rparr>)
   \<and> fst (set_state (Some (\<lambda>v. if v = JObj 2 [(''count'', JNum 1), (''name'', JStr ''n'')] then Some (Error ''boom'') else None)) (\<lambda>c s. None) (Partial [(''count'', JNum 2)])
        (snd (set_state (Some (\<lambda>v. if v = JObj 2 [(''count'', JNum 1), (''name'', JStr ''n'')] then Some (Error ''boom'') else None)) (\<lambda>c s. None) (Partial [(''count'', JNum 1)]) \<lparr>data = (0, [(''count'', JNum 0), (''name'', JStr ''n'')]), subscribers = [7, 8], next_ref = 1, events = [], methods = (\<lambda>f v k. Inr JUndefined), stack_limit = 0\<rparr>))) = Inr ()
   \<and> get (snd (set_state (Some (\<lambda>v. if v = JObj 2 [(''count'', JNum 1), (''name'', JStr ''n'')] then Some (Error ''boom'') else None)) (\<lambda>c s. None) (Partial [(''count'', JNum 2)])
        (snd (set_state (Some (\<lambda>v. if v = JObj 2 [(''count'', JNum 1), (''name'', JStr ''n'')] then Some (Error ''boom'') else None)) (\<lambda>c s. None) (Partial [(''count'', JNum 1)]) \<lparr>data = (0, [(''count'', JNum 0), (''name'', JStr ''n'')]), subscribers = [7, 8], next_ref = 1, events = [], methods = (\<lambda>f v k. Inr JUndefined), stack_limit = 0\<rparr>))))
      = (3, [(''count'', JNum 2), (''name'', JStr ''n'')])
   \<and> called (new_events (snd (set_state (Some (\<lambda>v. if v = JObj 2 [(''count'', JNum 1), (''name'', JStr ''n'')] then Some (Error ''boom'') else None)) (\<lambda>c s. None) (Partial [(''count'', JNum 1)]) \<lparr>data = (0, [(''count'', JNum 0), (''name'', JStr ''n'')]), subscribers = [7, 8], next_ref = 1, events = [], methods = (\<lambda>f v k. Inr JUndefined), stack_limit = 0\<rparr>))
        (snd (set_state (Some (\<lambda>v. if v = JObj 2 [(''count'', JNum 1), (''name'', JStr ''n'')] then Some (Error ''boom'') else None)) (\<lambda>c s. None) (Partial [(''count'', JNum 2)])
          (snd (set_state (Some (\<lambda>v. if v = JObj 2 [(''count'', JNum 1), (''name'', JStr ''n'')] then Some (Error ''boom'') else None)) (\<lambda>c s. None) (Partial [(''count'', JNum 1)]) \<lparr>data = (0, [(''count'', JNum 0), (''name'', JStr ''n'')]), subscribers = [7, 8], next_ref = 1, events = [], methods = (\<lambda>f v k. Inr JUndefined), stack_limit = 0\<rparr>)))))
      = [7, 8]"
  using set_state_isolates_callback_failure
    [of "Partial [(''count'', JNum 1)]" "\<lparr>data = (0, [(''count'', JNum 0), (''name'', JStr ''n'')]), subscribers = [7, 8], next_ref = 1, events = [], methods = (\<lambda>f v k. Inr JUndefined), stack_limit = 0\<rparr>" "[(''count'', JNum 1)]"
        "JObj 2 [(''count'', JNum 1), (''name'', JStr ''n'')]" 3 "(\<lambda>v. if v = JObj 2 [(''count'', JNum 1), (''name'', JStr ''n'')] then Some (Error ''boom'') else None)" "Error ''boom''"
        "\<lambda>c s. None" "Partial [(''count'', JNum 2)]"]
  by (simp add: store_defs Let_def)

subsection \<open>Claims on the registry\<close>


lemma Set_add_idem: "Set_add c (Set_add c cs) = Set_add c cs"
  by (simp add: Set_add_def)









subsection \<open>One call of set with listeners that make no store calls\<close>






subsection \<open>The live walk\<close>





















subsection \<open>Claims on the notification round\<close>










subsection \<open>Claims on the snapshot\<close>

text \<open>What the serialization makes of dates, of \<^verbatim>\<open>-0\<close>, of a fraction and of a \<^verbatim>\<open>toJSON\<close> method.\<close>

lemma JSON_stringify_date_and_numbers:
  "JSON_stringify F 0
     (JObj 0 [(''when'', JDate 1 (Some ''2020-01-01T00:00:00.000Z'')), (''never'', JDate 2 None),
              (''zero'', JNegZero), (''half'', JNum (1 / 2)), (''top'', JInfinity True)])
   = Inr (Some (JsonObject
       [(''when'', JsonString ''2020-01-01T00:00:00.000Z''), (''never'', JsonNull),
        (''zero'', JsonNumber 0), (''half'', JsonNumber (1 / 2)), (''top'', JsonNull)]))"
  by (simp add: JSON_stringify_def SerializeJSONProperty.simps Date_toJSON_def toJSON_method_def)

lemma JSON_stringify_toJSON:
  "JSON_stringify (\<lambda>f v k. if f = 2 then Inr (JStr (''custom '' @ k)) else Inl (Error ''no''))
     1 (JObj 0 [(''a'', JObj 1 [(''toJSON'', JFun 2), (''x'', JNum 1)])])
   = Inr (Some (JsonObject [(''a'', JsonString ''custom a'')]))"
  by (simp add: JSON_stringify_def SerializeJSONProperty.simps Date_toJSON_def toJSON_method_def)















end
